theory Spec2Isabelle
  imports Complex_Main
begin

section \<open>Python string primitives used by the sources\<close>

text \<open>
  Strings are character lists. \<open>str_in sub s\<close> is Python's \<^verbatim>\<open>sub in s\<close> on strings:
  \<open>sub\<close> occurs in \<open>s\<close> as a contiguous block (the empty string occurs everywhere).
\<close>

primrec starts_with :: "string \<Rightarrow> string \<Rightarrow> bool" where
  "starts_with [] s = True"
| "starts_with (c # cs) s = (case s of [] \<Rightarrow> False | d # ds \<Rightarrow> c = d \<and> starts_with cs ds)"

primrec str_in :: "string \<Rightarrow> string \<Rightarrow> bool" where
  "str_in sub [] = (sub = [])"
| "str_in sub (c # cs) = (starts_with sub (c # cs) \<or> str_in sub cs)"

text \<open>
  \<open>split_on c s\<close> is \<^verbatim>\<open>s.split(c)\<close> for a one-character separator: the pieces between
  the occurrences of \<open>c\<close>, empty pieces kept, so the result always has at least one piece.
\<close>

primrec split_on :: "char \<Rightarrow> string \<Rightarrow> string list" where
  "split_on c [] = [[]]"
| "split_on c (x # xs) =
     (if x = c then [] # split_on c xs
      else (case split_on c xs of [] \<Rightarrow> [[x]] | p # ps \<Rightarrow> (x # p) # ps))"

text \<open>\<^verbatim>\<open>s.replace(a, b)\<close> for one-character \<open>a\<close> and \<open>b\<close>.\<close>

definition replace_char :: "char \<Rightarrow> char \<Rightarrow> string \<Rightarrow> string" where
  "replace_char a b s = map (\<lambda>c. if c = a then b else c) s"

text \<open>\<^verbatim>\<open>s.endswith(suf)\<close>.\<close>

definition endswith :: "string \<Rightarrow> string \<Rightarrow> bool" where
  "endswith s suf = (length suf \<le> length s \<and> drop (length s - length suf) s = suf)"

section \<open>Errors and data\<close>

text \<open>
  Every exception the modelled code can raise is a value: \<open>QueryError\<close> is the class of
  \<^verbatim>\<open>utils/query.py\<close>; \<open>IndexError\<close>, \<open>ZeroDivisionError\<close> and \<open>ValueError\<close> are the
  Python built-ins raised by indexing, division and the thread pool's constructor;
  \<open>External\<close> stands for whatever a collaborator outside the two files raises.
\<close>

datatype error =
    QueryError string
  | IndexError
  | ZeroDivisionError
  | ValueError
  | External string

text \<open>Values stored in the dictionaries handed to and from \<^verbatim>\<open>Song\<close>.\<close>

datatype pyval = PNone | PStr string | PNum real | PList "pyval list"

type_synonym pydict = "string \<rightharpoonup> pyval"

text \<open>
  Modelled from the spec: the class \<^verbatim>\<open>Song\<close> of \<^verbatim>\<open>spotdl.types\<close> is not part of the
  two source files; the fields are those of the data model (section 3).
\<close>

record song =
  name :: string
  artists :: "string list"
  duration :: real
  isrc :: "string option"
  url :: "string option"
  download_url :: "string option"
  list_name :: "string option"
  list_position :: "nat option"

text \<open>
  Modelled from the spec: \<^verbatim>\<open>SongList\<close> (playlist, album, artist, saved library): a name and
  the ordered member track URLs.
\<close>

record song_list =
  sl_name :: string
  urls :: "string list"

section \<open>The query dispatcher (\<^verbatim>\<open>utils/query.py\<close>)\<close>

text \<open>
  The collaborators that \<^verbatim>\<open>parse_query\<close> and \<^verbatim>\<open>get_simple_songs\<close> call live outside the
  two files; they are parameters. Each may raise, so each returns a sum.
  \<open>load_manifest\<close> is \<^verbatim>\<open>open\<close> followed by \<^verbatim>\<open>json.load\<close>.
\<close>

record collaborators =
  from_url :: "string \<Rightarrow> error + song"
  from_dict :: "pydict \<Rightarrow> error + song"
  json :: "song \<Rightarrow> pydict"
  from_search_term :: "string \<Rightarrow> error + song"
  song_of_url :: "string \<Rightarrow> error + song"
  playlist_get_urls :: "string \<Rightarrow> error + string list"
  album_get_urls :: "string \<Rightarrow> error + string list"
  artist_get_albums :: "string \<Rightarrow> error + string list"
  saved_get_urls :: "error + string list"
  playlist_create_basic_list :: "string \<Rightarrow> error + song_list"
  album_create_basic_list :: "string \<Rightarrow> error + song_list"
  artist_create_basic_list :: "string \<Rightarrow> error + song_list"
  saved_create_basic_list :: "error + song_list"
  create_empty_song :: "string \<Rightarrow> song_list \<Rightarrow> error + song"
  load_manifest :: "string \<Rightarrow> error + pydict list"

text \<open>
  The condition of the first branch, lines 21-27 and 83-89. Python's \<^verbatim>\<open>and\<close> binds
  tighter than \<^verbatim>\<open>or\<close>, so the condition is \<open>A or (B and C and D and E)\<close>.
\<close>

definition paired_condition :: "string \<Rightarrow> bool" where
  "paired_condition request =
     (str_in ''youtube.com/watch?v='' request
      \<or> (str_in ''youtu.be/'' request
         \<and> str_in ''open.spotify.com'' request
         \<and> str_in ''track'' request
         \<and> str_in ''|'' request))"

text \<open>
  The validation of lines 29-34 and 91-96: \<open>L or (Y1 and Y2) or S\<close>. The list is read at
  index 1 only when it has more than one element.
\<close>

definition bad_format :: "string list \<Rightarrow> bool" where
  "bad_format split_urls =
     (if length split_urls \<le> 1 then True
      else ((\<not> str_in ''youtube'' (split_urls ! 0) \<and> \<not> str_in ''youtu.be'' (split_urls ! 0))
            \<or> \<not> str_in ''spotify'' (split_urls ! 1)))"

definition format_message :: string where
  "format_message = ''Incorrect format used, please use YouTubeURL|SpotifyURL''"

text \<open>The inner loop of the artist branch: every album's track URLs, in order.\<close>

fun extend_albums :: "collaborators \<Rightarrow> string list \<Rightarrow> string list \<Rightarrow> error + string list" where
  "extend_albums env us [] = Inr us"
| "extend_albums env us (album_url # rest) =
     (case album_get_urls env album_url of
        Inl e \<Rightarrow> Inl e
      | Inr ts \<Rightarrow> extend_albums env (us @ ts) rest)"

text \<open>The inner loop of the manifest branch: one \<^verbatim>\<open>Song.from_dict\<close> per record.\<close>

fun append_tracks :: "collaborators \<Rightarrow> song list \<Rightarrow> pydict list \<Rightarrow> error + song list" where
  "append_tracks env ss [] = Inr ss"
| "append_tracks env ss (track # rest) =
     (case from_dict env track of
        Inl e \<Rightarrow> Inl e
      | Inr s \<Rightarrow> append_tracks env (ss @ [s]) rest)"

text \<open>
  One iteration of the loop of \<^verbatim>\<open>parse_query\<close> (lines 20-64) on the state
  \<open>(urls, songs)\<close>.
\<close>

definition parse_request ::
  "collaborators \<Rightarrow> string \<Rightarrow> string list \<times> song list \<Rightarrow> error + (string list \<times> song list)" where
  "parse_request env request st =
     (case st of (us, ss) \<Rightarrow>
      if paired_condition request then
        (let split_urls = split_on CHR ''|'' request in
         if bad_format split_urls then Inl (QueryError format_message)
         else (case from_url env (split_urls ! 1) of
                 Inl e \<Rightarrow> Inl e
               | Inr s \<Rightarrow>
                  (case from_dict env ((json env s)(''download_url'' \<mapsto> PStr (split_urls ! 0))) of
                     Inl e \<Rightarrow> Inl e
                   | Inr s' \<Rightarrow> Inr (us, ss @ [s']))))
      else if str_in ''open.spotify.com'' request \<and> str_in ''track'' request then
        Inr (us @ [request], ss)
      else if str_in ''open.spotify.com'' request \<and> str_in ''playlist'' request then
        (case playlist_get_urls env request of
           Inl e \<Rightarrow> Inl e
         | Inr ts \<Rightarrow> Inr (us @ ts, ss))
      else if str_in ''open.spotify.com'' request \<and> str_in ''album'' request then
        (case album_get_urls env request of
           Inl e \<Rightarrow> Inl e
         | Inr ts \<Rightarrow> Inr (us @ ts, ss))
      else if str_in ''open.spotify.com'' request \<and> str_in ''artist'' request then
        (case artist_get_albums env request of
           Inl e \<Rightarrow> Inl e
         | Inr albums \<Rightarrow>
            (case extend_albums env us albums of
               Inl e \<Rightarrow> Inl e
             | Inr us' \<Rightarrow> Inr (us', ss)))
      else if request = ''saved'' then
        (case saved_get_urls env of
           Inl e \<Rightarrow> Inl e
         | Inr ts \<Rightarrow> Inr (us @ ts, ss))
      else if endswith request ''.spotdl'' then
        (case load_manifest env request of
           Inl e \<Rightarrow> Inl e
         | Inr tracks \<Rightarrow>
            (case append_tracks env ss tracks of
               Inl e \<Rightarrow> Inl e
             | Inr ss' \<Rightarrow> Inr (us, ss')))
      else
        (case from_search_term env request of
           Inl e \<Rightarrow> Inl e
         | Inr s \<Rightarrow> Inr (us, ss @ [s])))"

text \<open>The loop over the query: the first exception ends it.\<close>

fun parse_loop ::
  "collaborators \<Rightarrow> string list \<times> song list \<Rightarrow> string list \<Rightarrow> error + (string list \<times> song list)" where
  "parse_loop env st [] = Inr st"
| "parse_loop env st (request # rest) =
     (case parse_request env request st of
        Inl e \<Rightarrow> Inl e
      | Inr st' \<Rightarrow> parse_loop env st' rest)"

text \<open>
  \<^verbatim>\<open>executor.map(Song.from_url, urls)\<close>, iterated: the results come in the order of
  \<open>urls\<close>, and the iteration raises the exception of the first URL, in that order, whose
  fetch failed. What the value returned depends on is this order alone, so the pool is a
  sequential map here.
\<close>

fun executor_map :: "collaborators \<Rightarrow> string list \<Rightarrow> error + song list" where
  "executor_map env [] = Inr []"
| "executor_map env (u # us) =
     (case from_url env u of
        Inl e \<Rightarrow> Inl e
      | Inr s \<Rightarrow>
         (case executor_map env us of
            Inl e \<Rightarrow> Inl e
          | Inr ss \<Rightarrow> Inr (s # ss)))"

text \<open>
  \<^verbatim>\<open>parse_query(query, threads)\<close>. The pool's constructor raises \<^verbatim>\<open>ValueError\<close> for
  \<open>threads \<le> 0\<close>, after the loop has run.
\<close>

definition parse_query :: "collaborators \<Rightarrow> string list \<Rightarrow> int \<Rightarrow> error + song list" where
  "parse_query env query threads =
     (case parse_loop env ([], []) query of
        Inl e \<Rightarrow> Inl e
      | Inr (us, ss) \<Rightarrow>
         if threads \<le> 0 then Inl ValueError
         else (case executor_map env us of
                 Inl e \<Rightarrow> Inl e
               | Inr rs \<Rightarrow> Inr (ss @ rs)))"

text \<open>
  One iteration of the loop of \<^verbatim>\<open>get_simple_songs\<close> (lines 82-125) on the state
  \<open>(songs, lists)\<close>.
\<close>

definition simple_request ::
  "collaborators \<Rightarrow> string \<Rightarrow> song list \<times> song_list list \<Rightarrow> error + (song list \<times> song_list list)" where
  "simple_request env request st =
     (case st of (ss, ls) \<Rightarrow>
      if paired_condition request then
        (let split_urls = split_on CHR ''|'' request in
         if bad_format split_urls then Inl (QueryError format_message)
         else (case from_dict env
                      [''url'' \<mapsto> PStr (split_urls ! 1), ''download_url'' \<mapsto> PStr (split_urls ! 0)] of
                 Inl e \<Rightarrow> Inl e
               | Inr s \<Rightarrow> Inr (ss @ [s], ls)))
      else if str_in ''open.spotify.com'' request \<and> str_in ''track'' request then
        (case song_of_url env request of
           Inl e \<Rightarrow> Inl e
         | Inr s \<Rightarrow> Inr (ss @ [s], ls))
      else if str_in ''open.spotify.com'' request \<and> str_in ''playlist'' request then
        (case playlist_create_basic_list env request of
           Inl e \<Rightarrow> Inl e
         | Inr l \<Rightarrow> Inr (ss, ls @ [l]))
      else if str_in ''open.spotify.com'' request \<and> str_in ''album'' request then
        (case album_create_basic_list env request of
           Inl e \<Rightarrow> Inl e
         | Inr l \<Rightarrow> Inr (ss, ls @ [l]))
      else if str_in ''open.spotify.com'' request \<and> str_in ''artist'' request then
        (case artist_create_basic_list env request of
           Inl e \<Rightarrow> Inl e
         | Inr l \<Rightarrow> Inr (ss, ls @ [l]))
      else if request = ''saved'' then
        (case saved_create_basic_list env of
           Inl e \<Rightarrow> Inl e
         | Inr l \<Rightarrow> Inr (ss, ls @ [l]))
      else if endswith request ''.spotdl'' then
        (case load_manifest env request of
           Inl e \<Rightarrow> Inl e
         | Inr tracks \<Rightarrow>
            (case append_tracks env ss tracks of
               Inl e \<Rightarrow> Inl e
             | Inr ss' \<Rightarrow> Inr (ss', ls)))
      else
        (case from_search_term env request of
           Inl e \<Rightarrow> Inl e
         | Inr s \<Rightarrow> Inr (ss @ [s], ls)))"

fun simple_loop ::
  "collaborators \<Rightarrow> song list \<times> song_list list \<Rightarrow> string list \<Rightarrow> error + (song list \<times> song_list list)" where
  "simple_loop env st [] = Inr st"
| "simple_loop env st (request # rest) =
     (case simple_request env request st of
        Inl e \<Rightarrow> Inl e
      | Inr st' \<Rightarrow> simple_loop env st' rest)"

text \<open>The list comprehension of line 128: one placeholder per member URL.\<close>

fun empty_songs :: "collaborators \<Rightarrow> song_list \<Rightarrow> string list \<Rightarrow> error + song list" where
  "empty_songs env l [] = Inr []"
| "empty_songs env l (u # us) =
     (case create_empty_song env u l of
        Inl e \<Rightarrow> Inl e
      | Inr s \<Rightarrow>
         (case empty_songs env l us of
            Inl e \<Rightarrow> Inl e
          | Inr ss \<Rightarrow> Inr (s # ss)))"

fun extend_lists :: "collaborators \<Rightarrow> song list \<Rightarrow> song_list list \<Rightarrow> error + song list" where
  "extend_lists env ss [] = Inr ss"
| "extend_lists env ss (l # ls) =
     (case empty_songs env l (urls l) of
        Inl e \<Rightarrow> Inl e
      | Inr ms \<Rightarrow> extend_lists env (ss @ ms) ls)"

definition get_simple_songs :: "collaborators \<Rightarrow> string list \<Rightarrow> error + song list" where
  "get_simple_songs env query =
     (case simple_loop env ([], []) query of
        Inl e \<Rightarrow> Inl e
      | Inr (ss, ls) \<Rightarrow> extend_lists env ss ls)"

section \<open>The YouTube provider (\<^verbatim>\<open>providers/audio/youtube.py\<close>)\<close>

text \<open>
  A search result (a \<^verbatim>\<open>pytube.YouTube\<close> object) as the code reads it: the four attributes
  \<^verbatim>\<open>video_id\<close>, \<^verbatim>\<open>title\<close>, \<^verbatim>\<open>length\<close> and \<^verbatim>\<open>watch_url\<close>. The code tests the first
  and the last against \<^verbatim>\<open>None\<close>, so they are options. The object itself counts as true
  in a condition (line 92).
\<close>

record result =
  video_id :: "string option"
  title :: string
  length_s :: int
  watch_url :: "string option"

text \<open>
  The provider instance: its two settings, and the functions it calls that live outside
  the two files. \<open>get_results\<close> is \<^verbatim>\<open>Search(term).results\<close>, which is a list or
  \<^verbatim>\<open>None\<close>. \<open>create_search_query p song template\<close> is
  \<^verbatim>\<open>create_search_query(song, template, False, None, True)\<close>; \<open>lower\<close> is \<^verbatim>\<open>str.lower\<close>.
  Python's floats are read as real numbers: rounding is outside the model.
\<close>

record provider =
  search_query :: "string option"
  filter_results :: bool
  get_results :: "string \<Rightarrow> result list option"
  slugify :: "string \<Rightarrow> string"
  match_percentage :: "string \<Rightarrow> string \<Rightarrow> real"
  create_song_title :: "string \<Rightarrow> string list \<Rightarrow> string"
  create_search_query :: "song \<Rightarrow> string \<Rightarrow> string"
  lower :: "string \<Rightarrow> string"

text \<open>Truth value of an optional string: \<^verbatim>\<open>None\<close> and the empty string are false.\<close>

definition truthy :: "string option \<Rightarrow> bool" where
  "truthy x = (case x of None \<Rightarrow> False | Some s \<Rightarrow> s \<noteq> [])"

definition str_of :: "string option \<Rightarrow> string" where
  "str_of x = (case x of None \<Rightarrow> [] | Some s \<Rightarrow> s)"

text \<open>
  A Python dictionary keeps its keys in the order of their first insertion; assigning to a
  key that exists replaces the value in place.
\<close>

fun dict_set :: "'k \<Rightarrow> 'v \<Rightarrow> ('k \<times> 'v) list \<Rightarrow> ('k \<times> 'v) list" where
  "dict_set k v [] = [(k, v)]"
| "dict_set k v ((k', v') # rest) =
     (if k' = k then (k, v) # rest else (k', v') # dict_set k v rest)"

definition slug_song_title :: "provider \<Rightarrow> song \<Rightarrow> string" where
  "slug_song_title p sg =
     slugify p (if \<not> truthy (search_query p) then create_song_title p (name sg) (artists sg)
                else create_search_query p sg (str_of (search_query p)))"

definition sentence_words :: "provider \<Rightarrow> song \<Rightarrow> string list" where
  "sentence_words p sg = split_on CHR '' '' (replace_char CHR ''-'' CHR '' '' (slugify p (name sg)))"

definition common_word :: "provider \<Rightarrow> song \<Rightarrow> result \<Rightarrow> bool" where
  "common_word p sg r =
     list_ex (\<lambda>word. word \<noteq> [] \<and> str_in word (slugify p (title r))) (sentence_words p sg)"

definition artist_match_number :: "provider \<Rightarrow> song \<Rightarrow> result \<Rightarrow> real" where
  "artist_match_number p sg r =
     foldl (\<lambda>acc artist. acc + match_percentage p (slugify p artist) (slugify p (title r)))
           0 (artists sg)"

definition artist_match :: "provider \<Rightarrow> song \<Rightarrow> result \<Rightarrow> real" where
  "artist_match p sg r = artist_match_number p sg r / real (length (artists sg))"

definition name_match :: "provider \<Rightarrow> song \<Rightarrow> result \<Rightarrow> real" where
  "name_match p sg r = match_percentage p (slugify p (title r)) (slug_song_title p sg)"

definition time_match :: "song \<Rightarrow> result \<Rightarrow> real" where
  "time_match sg r = 100 - (real_of_int (length_s r) - (duration sg)\<^sup>2) / duration sg * 100"

definition average_match :: "provider \<Rightarrow> song \<Rightarrow> result \<Rightarrow> real" where
  "average_match p sg r = (artist_match p sg r + name_match p sg r + time_match sg r) / 3"

text \<open>
  One iteration of the loop of \<^verbatim>\<open>order_results\<close> (lines 146-194) on the dictionary
  \<open>links\<close>. Both divisions raise \<^verbatim>\<open>ZeroDivisionError\<close> on a zero divisor.
\<close>

definition order_step ::
  "provider \<Rightarrow> song \<Rightarrow> result \<Rightarrow> (string option \<times> real) list \<Rightarrow> error + (string option \<times> real) list" where
  "order_step p sg r links =
     (if video_id r = None then Inr links
      else if \<not> common_word p sg r then Inr links
      else if length (artists sg) = 0 then Inl ZeroDivisionError
      else if artist_match p sg r < 70 then Inr links
      else if name_match p sg r < 50 then Inr links
      else if duration sg = 0 then Inl ZeroDivisionError
      else Inr (dict_set (watch_url r) (average_match p sg r) links))"

fun order_loop ::
  "provider \<Rightarrow> song \<Rightarrow> (string option \<times> real) list \<Rightarrow> result list \<Rightarrow> error + (string option \<times> real) list" where
  "order_loop p sg links [] = Inr links"
| "order_loop p sg links (r # rest) =
     (case order_step p sg r links of
        Inl e \<Rightarrow> Inl e
      | Inr links' \<Rightarrow> order_loop p sg links' rest)"

definition order_results :: "provider \<Rightarrow> result list \<Rightarrow> song \<Rightarrow> error + (string option \<times> real) list" where
  "order_results p results sg = order_loop p sg [] results"

text \<open>
  \<^verbatim>\<open>sorted(items, key=lambda x: x[1], reverse=True)\<close>: a stable sort by descending score.
\<close>

definition sorted_results :: "(string option \<times> real) list \<Rightarrow> (string option \<times> real) list" where
  "sorted_results items = sort_key (\<lambda>x. - snd x) items"

text \<open>
  Lines 100-121 of \<^verbatim>\<open>search\<close>: the text search with the term \<open>q\<close>. The first component of
  the value is the list of the terms handed to \<open>get_results\<close> so far, \<open>calls\<close> being those
  of the ISRC lookup; the second is what the method returns or raises.
\<close>

definition ranked_search ::
  "provider \<Rightarrow> song \<Rightarrow> string list \<Rightarrow> string \<Rightarrow> string list \<times> (error + string option)" where
  "ranked_search p sg calls q =
     (case get_results p q of
        None \<Rightarrow> (calls @ [q], Inr None)
      | Some results \<Rightarrow>
         (case (if filter_results p
                then (case results of [] \<Rightarrow> Inl IndexError | r # _ \<Rightarrow> Inr [(watch_url r, 100)])
                else order_results p results sg) of
            Inl e \<Rightarrow> (calls @ [q], Inl e)
          | Inr ordered_results \<Rightarrow>
             if length ordered_results = 0 then (calls @ [q], Inr None)
             else (case sorted_results ordered_results of
                     [] \<Rightarrow> (calls @ [q], Inl IndexError)
                   | best # _ \<Rightarrow> (calls @ [q], Inr (fst best)))))"

text \<open>The term of the text search when no template is set (line 95).\<close>

definition title_query :: "provider \<Rightarrow> song \<Rightarrow> string" where
  "title_query p sg = lower p (create_song_title p (name sg) (artists sg))"

text \<open>\<^verbatim>\<open>YouTube.search\<close> (lines 73-121).\<close>

definition search :: "provider \<Rightarrow> song \<Rightarrow> string list \<times> (error + string option)" where
  "search p sg =
     (if truthy (search_query p) then
        ranked_search p sg [] (create_search_query p sg (str_of (search_query p)))
      else if truthy (isrc sg) then
        (case get_results p (str_of (isrc sg)) of
           Some [isrc_result] \<Rightarrow>
             (case watch_url isrc_result of
                Some w \<Rightarrow> ([str_of (isrc sg)], Inr (Some w))
              | None \<Rightarrow> ranked_search p sg [str_of (isrc sg)] (title_query p sg))
         | _ \<Rightarrow> ranked_search p sg [str_of (isrc sg)] (title_query p sg))
      else ranked_search p sg [] (title_query p sg))"

section \<open>Fixed collaborators for running the model\<close>

text \<open>
  A concrete set of collaborators, used to evaluate the definitions on concrete queries.
  The metadata service knows every track but those whose URL contains \<open>missing\<close>.
\<close>

definition stub_song :: "string \<Rightarrow> song" where
  "stub_song u =
     \<lparr>name = u, artists = [''artist''], duration = 200, isrc = None, url = Some u,
      download_url = None, list_name = None, list_position = None\<rparr>"

definition stub_from_url :: "string \<Rightarrow> error + song" where
  "stub_from_url u =
     (if str_in ''missing'' u then Inl (External ''track not found'') else Inr (stub_song u))"

definition stub_json :: "song \<Rightarrow> pydict" where
  "stub_json s =
     [''name'' \<mapsto> PStr (name s),
      ''url'' \<mapsto> (case url s of None \<Rightarrow> PNone | Some u \<Rightarrow> PStr u),
      ''download_url'' \<mapsto> (case download_url s of None \<Rightarrow> PNone | Some u \<Rightarrow> PStr u)]"

definition stub_from_dict :: "pydict \<Rightarrow> error + song" where
  "stub_from_dict d =
     (case d ''url'' of
        Some (PStr u) \<Rightarrow>
          Inr ((stub_song u)
                 \<lparr>download_url := (case d ''download_url'' of Some (PStr v) \<Rightarrow> Some v | _ \<Rightarrow> None)\<rparr>)
      | _ \<Rightarrow> Inl (External ''bad record''))"

definition stub_list :: "string \<Rightarrow> song_list" where
  "stub_list u = \<lparr>sl_name = u, urls = [u @ ''/1'', u @ ''/2'']\<rparr>"

definition stub_env :: collaborators where
  "stub_env =
     \<lparr>from_url = stub_from_url,
      from_dict = stub_from_dict,
      json = stub_json,
      from_search_term = (\<lambda>t. Inr (stub_song t)),
      song_of_url = (\<lambda>u. Inr (stub_song u)),
      playlist_get_urls = (\<lambda>u. Inr (urls (stub_list u))),
      album_get_urls = (\<lambda>u. Inr (urls (stub_list u))),
      artist_get_albums = (\<lambda>u. Inr [u @ ''/album'']),
      saved_get_urls = Inr [],
      playlist_create_basic_list = (\<lambda>u. Inr (stub_list u)),
      album_create_basic_list = (\<lambda>u. Inr (stub_list u)),
      artist_create_basic_list = (\<lambda>u. Inr (stub_list u)),
      saved_create_basic_list = Inr (stub_list ''saved''),
      create_empty_song = (\<lambda>u l. Inr (stub_song u)),
      load_manifest = (\<lambda>f. Inr [])\<rparr>"

section \<open>Notions used in the statements about the provider\<close>

text \<open>
  A candidate passes the gates of \<^verbatim>\<open>order_results\<close>: it has a video identifier, shares a
  word with the song's name, and its artist and name scores are not below 70 and 50.
\<close>

definition passes_gates :: "provider \<Rightarrow> song \<Rightarrow> result \<Rightarrow> bool" where
  "passes_gates p sg r =
     (video_id r \<noteq> None \<and> common_word p sg r
      \<and> \<not> artist_match p sg r < 70 \<and> \<not> name_match p sg r < 50)"

text \<open>
  The watch reference with which the ISRC lookup of lines 85-93 ends \<^verbatim>\<open>search\<close>, if it
  does: no template is set, the song has an ISRC, and the lookup gives exactly one result.
\<close>

definition isrc_match :: "provider \<Rightarrow> song \<Rightarrow> string option" where
  "isrc_match p sg =
     (if \<not> truthy (search_query p) \<and> truthy (isrc sg)
      then (case get_results p (str_of (isrc sg)) of
              Some [isrc_result] \<Rightarrow> watch_url isrc_result
            | _ \<Rightarrow> None)
      else None)"

text \<open>The term of the text search (lines 80-83 and 95).\<close>

definition search_term :: "provider \<Rightarrow> song \<Rightarrow> string" where
  "search_term p sg =
     (if truthy (search_query p) then create_search_query p sg (str_of (search_query p))
      else title_query p sg)"

section \<open>A fixed provider for running the model\<close>

text \<open>
  A concrete provider: slugs turn blanks into hyphens, the similarity of two strings is 100
  when one occurs in the other and 0 otherwise, the title is \<open>artist - name\<close>, and no
  template is set. The search service is the parameter \<open>g\<close>.
\<close>

definition stub_match :: "string \<Rightarrow> string \<Rightarrow> real" where
  "stub_match a b = (if str_in a b \<or> str_in b a then 100 else 0)"

definition stub_title :: "string \<Rightarrow> string list \<Rightarrow> string" where
  "stub_title n as = (case as of [] \<Rightarrow> n | a # _ \<Rightarrow> a @ '' - '' @ n)"

definition stub_provider :: "(string \<Rightarrow> result list option) \<Rightarrow> provider" where
  "stub_provider g =
     \<lparr>search_query = None,
      filter_results = False,
      get_results = g,
      slugify = replace_char CHR '' '' CHR ''-'',
      match_percentage = stub_match,
      create_song_title = stub_title,
      create_search_query = (\<lambda>sg template. template),
      lower = (\<lambda>s. s)\<rparr>"

definition test_song :: song where
  "test_song =
     \<lparr>name = ''test'', artists = [''a''], duration = 200, isrc = None,
      url = Some ''https://open.spotify.com/track/abc'', download_url = None,
      list_name = None, list_position = None\<rparr>"

definition candidate :: "string \<Rightarrow> string \<Rightarrow> int \<Rightarrow> result" where
  "candidate v t n =
     \<lparr>video_id = Some v, title = t, length_s = n,
      watch_url = Some (''https://youtube.com/watch?v='' @ v)\<rparr>"

text \<open>Search services for the concrete provider.\<close>

definition two_results :: "string \<Rightarrow> result list option" where
  "two_results q = Some [candidate ''v1'' ''a - test'' 200, candidate ''v2'' ''unrelated'' 200]"

definition no_id_results :: "string \<Rightarrow> result list option" where
  "no_id_results q =
     Some [\<lparr>video_id = None, title = ''a - test'', length_s = 200, watch_url = Some ''https://youtube.com/watch?v=v0''\<rparr>,
           candidate ''v1'' ''a - test'' 200]"

definition empty_results :: "string \<Rightarrow> result list option" where
  "empty_results q = Some []"

definition none_results :: "string \<Rightarrow> result list option" where
  "none_results q = None"

section \<open>Properties of the string primitives\<close>

lemma starts_with_iff: "starts_with sub s \<longleftrightarrow> (\<exists>post. s = sub @ post)"
  by (induction sub arbitrary: s) (auto split: list.splits)

lemma str_in_iff: "str_in sub s \<longleftrightarrow> (\<exists>pre post. s = pre @ sub @ post)"
proof (induction s)
  case Nil
  show ?case by auto
next
  case (Cons c cs)
  show ?case
  proof
    assume "str_in sub (c # cs)"
    then consider "starts_with sub (c # cs)" | "str_in sub cs" by auto
    then show "\<exists>pre post. c # cs = pre @ sub @ post"
    proof cases
      case 1
      then obtain post where "c # cs = sub @ post" using starts_with_iff by blast
      then have "c # cs = [] @ sub @ post" by simp
      then show ?thesis by blast
    next
      case 2
      then obtain pre post where "cs = pre @ sub @ post" using Cons.IH by blast
      then have "c # cs = (c # pre) @ sub @ post" by simp
      then show ?thesis by blast
    qed
  next
    assume "\<exists>pre post. c # cs = pre @ sub @ post"
    then obtain pre post where e: "c # cs = pre @ sub @ post" by blast
    show "str_in sub (c # cs)"
    proof (cases pre)
      case Nil
      with e have "starts_with sub (c # cs)" using starts_with_iff by auto
      then show ?thesis by simp
    next
      case (Cons d ds)
      with e have "cs = ds @ sub @ post" by simp
      then have "str_in sub cs" using Cons.IH by blast
      then show ?thesis by simp
    qed
  qed
qed

lemma str_in_append: "str_in sub a \<or> str_in sub b \<Longrightarrow> str_in sub (a @ b)"
proof (erule disjE)
  assume "str_in sub a"
  then obtain pre post where "a = pre @ sub @ post" using str_in_iff by blast
  then have "a @ b = pre @ sub @ (post @ b)" by simp
  then show ?thesis using str_in_iff by blast
next
  assume "str_in sub b"
  then obtain pre post where "b = pre @ sub @ post" using str_in_iff by blast
  then have "a @ b = (a @ pre) @ sub @ post" by simp
  then show ?thesis using str_in_iff by blast
qed

lemma str_in_trans: "str_in a b \<Longrightarrow> str_in b c \<Longrightarrow> str_in a c"
proof -
  assume ab: "str_in a b" and bc: "str_in b c"
  from ab obtain p1 q1 where b: "b = p1 @ a @ q1" unfolding str_in_iff by blast
  from bc obtain p2 q2 where c: "c = p2 @ b @ q2" unfolding str_in_iff by blast
  from b c have "c = (p2 @ p1) @ a @ (q1 @ q2)" by simp
  then show ?thesis unfolding str_in_iff by blast
qed

lemma str_in_char: "str_in [c] s \<longleftrightarrow> c \<in> set s"
  by (induction s) (auto split: list.splits)

lemma split_on_nonempty: "split_on c s \<noteq> []"
  by (induction s) (auto split: list.splits)

lemma split_on_no_sep: "c \<notin> set s \<Longrightarrow> split_on c s = [s]"
  by (induction s) auto

lemma split_on_append: "c \<notin> set a \<Longrightarrow> split_on c (a @ c # b) = a # split_on c b"
  by (induction a) auto

lemma split_on_length: "length (split_on c s) \<le> 1 \<longleftrightarrow> c \<notin> set s"
proof (induction s)
  case Nil show ?case by simp
next
  case (Cons x xs)
  show ?case
  proof (cases "split_on c xs")
    case Nil
    then show ?thesis using split_on_nonempty[of c xs] by simp
  next
    case (Cons p ps)
    then show ?thesis using Cons.IH by simp
  qed
qed


section \<open>Properties of the dispatcher\<close>

subsection \<open>The loops and their accumulators\<close>

lemma extend_albums_acc:
  "extend_albums env us albums =
     (case extend_albums env [] albums of Inl e \<Rightarrow> Inl e | Inr ts \<Rightarrow> Inr (us @ ts))"
proof (induction albums arbitrary: us)
  case Nil
  show ?case by simp
next
  case (Cons a rest)
  show ?case
  proof (cases "album_get_urls env a")
    case (Inl e)
    then show ?thesis by simp
  next
    case (Inr ts)
    have "extend_albums env (us @ ts) rest =
            (case extend_albums env [] rest of Inl e \<Rightarrow> Inl e | Inr r \<Rightarrow> Inr ((us @ ts) @ r))"
      by (rule Cons.IH)
    moreover have "extend_albums env ([] @ ts) rest =
            (case extend_albums env [] rest of Inl e \<Rightarrow> Inl e | Inr r \<Rightarrow> Inr (([] @ ts) @ r))"
      by (rule Cons.IH)
    ultimately show ?thesis using Inr by (simp split: sum.splits)
  qed
qed

lemma append_tracks_acc:
  "append_tracks env ss tracks =
     (case append_tracks env [] tracks of Inl e \<Rightarrow> Inl e | Inr ts \<Rightarrow> Inr (ss @ ts))"
proof (induction tracks arbitrary: ss)
  case Nil
  show ?case by simp
next
  case (Cons a rest)
  show ?case
  proof (cases "from_dict env a")
    case (Inl e)
    then show ?thesis by simp
  next
    case (Inr s)
    have "append_tracks env (ss @ [s]) rest =
            (case append_tracks env [] rest of Inl e \<Rightarrow> Inl e | Inr r \<Rightarrow> Inr ((ss @ [s]) @ r))"
      by (rule Cons.IH)
    moreover have "append_tracks env ([] @ [s]) rest =
            (case append_tracks env [] rest of Inl e \<Rightarrow> Inl e | Inr r \<Rightarrow> Inr (([] @ [s]) @ r))"
      by (rule Cons.IH)
    ultimately show ?thesis using Inr by (simp split: sum.splits)
  qed
qed

lemma parse_request_acc:
  "parse_request env request (us, ss) =
     (case parse_request env request ([], []) of
        Inl e \<Rightarrow> Inl e
      | Inr (u, d) \<Rightarrow> Inr (us @ u, ss @ d))"
proof -
  note ea = extend_albums_acc [of env us]
  note at = append_tracks_acc [of env ss]
  let ?sp = "str_in ''open.spotify.com'' request"
  consider (paired) "paired_condition request"
    | (track) "\<not> paired_condition request" "?sp \<and> str_in ''track'' request"
    | (playlist) "\<not> paired_condition request" "\<not> (?sp \<and> str_in ''track'' request)"
        "?sp \<and> str_in ''playlist'' request"
    | (album) "\<not> paired_condition request" "\<not> (?sp \<and> str_in ''track'' request)"
        "\<not> (?sp \<and> str_in ''playlist'' request)" "?sp \<and> str_in ''album'' request"
    | (artist) "\<not> paired_condition request" "\<not> (?sp \<and> str_in ''track'' request)"
        "\<not> (?sp \<and> str_in ''playlist'' request)" "\<not> (?sp \<and> str_in ''album'' request)"
        "?sp \<and> str_in ''artist'' request"
    | (other) "\<not> paired_condition request" "\<not> ?sp"
    | (other') "\<not> paired_condition request" "?sp" "\<not> str_in ''track'' request"
        "\<not> str_in ''playlist'' request" "\<not> str_in ''album'' request"
        "\<not> str_in ''artist'' request"
    by blast
  then show ?thesis
  proof cases
    case paired
    then show ?thesis by (simp add: parse_request_def Let_def split: sum.splits)
  next
    case track
    then show ?thesis by (simp add: parse_request_def)
  next
    case playlist
    then show ?thesis by (simp add: parse_request_def split: sum.splits)
  next
    case album
    then show ?thesis by (simp add: parse_request_def split: sum.splits)
  next
    case artist
    then show ?thesis using ea by (simp add: parse_request_def split: sum.splits)
  next
    case other
    then show ?thesis using at by (simp add: parse_request_def split: sum.splits)
  next
    case other'
    then show ?thesis using at by (simp add: parse_request_def split: sum.splits)
  qed
qed

lemma parse_loop_acc:
  "parse_loop env (us, ss) query =
     (case parse_loop env ([], []) query of
        Inl e \<Rightarrow> Inl e
      | Inr (u, d) \<Rightarrow> Inr (us @ u, ss @ d))"
proof (induction query arbitrary: us ss)
  case Nil
  show ?case by simp
next
  case (Cons r rest)
  show ?case
  proof (cases "parse_request env r ([], [])")
    case (Inl e)
    then show ?thesis using parse_request_acc [of env r us ss] by simp
  next
    case (Inr st)
    obtain u d where st: "st = (u, d)" by (cases st)
    have a: "parse_request env r (us, ss) = Inr (us @ u, ss @ d)"
      using parse_request_acc [of env r us ss] Inr st by simp
    have b: "parse_loop env (us @ u, ss @ d) rest =
               (case parse_loop env ([], []) rest of
                  Inl e \<Rightarrow> Inl e | Inr (u', d') \<Rightarrow> Inr ((us @ u) @ u', (ss @ d) @ d'))"
      by (rule Cons.IH)
    have c: "parse_loop env (u, d) rest =
               (case parse_loop env ([], []) rest of
                  Inl e \<Rightarrow> Inl e | Inr (u', d') \<Rightarrow> Inr (u @ u', d @ d'))"
      by (rule Cons.IH)
    show ?thesis using a b c Inr st by (simp split: sum.splits prod.splits)
  qed
qed

lemma parse_loop_append:
  "parse_loop env st (q1 @ q2) =
     (case parse_loop env st q1 of Inl e \<Rightarrow> Inl e | Inr st' \<Rightarrow> parse_loop env st' q2)"
  by (induction q1 arbitrary: st) (simp_all split: sum.splits)

lemma simple_loop_append:
  "simple_loop env st (q1 @ q2) =
     (case simple_loop env st q1 of Inl e \<Rightarrow> Inl e | Inr st' \<Rightarrow> simple_loop env st' q2)"
  by (induction q1 arbitrary: st) (simp_all split: sum.splits)

lemma executor_map_append:
  "executor_map env (a @ b) =
     (case executor_map env a of
        Inl e \<Rightarrow> Inl e
      | Inr ra \<Rightarrow> (case executor_map env b of Inl e \<Rightarrow> Inl e | Inr rb \<Rightarrow> Inr (ra @ rb)))"
  by (induction a) (simp_all split: sum.splits)

lemma executor_map_order:
  "executor_map env us = Inr rs \<Longrightarrow> map (from_url env) us = map Inr rs"
  by (induction us arbitrary: rs) (auto split: sum.splits)

lemma executor_map_first_failure:
  "executor_map env pre = Inr rs \<Longrightarrow> from_url env u = Inl e \<Longrightarrow>
     executor_map env (pre @ u # post) = Inl e"
  by (simp add: executor_map_append)

lemma parse_request_paired_bad:
  assumes "paired_condition request" and "bad_format (split_on CHR ''|'' request)"
  shows "parse_request env request st = Inl (QueryError format_message)"
  using assms by (cases st) (simp add: parse_request_def Let_def)

lemma simple_request_paired_bad:
  assumes "paired_condition request" and "bad_format (split_on CHR ''|'' request)"
  shows "simple_request env request st = Inl (QueryError format_message)"
  using assms by (cases st) (simp add: simple_request_def Let_def)

subsection \<open>Valid paired tokens\<close>

lemma valid_pair_condition:
  assumes ya: "str_in ''youtube.com/watch?v='' a \<or> str_in ''youtu.be/'' a"
    and sb: "str_in ''open.spotify.com'' b" and tb: "str_in ''track'' b"
  shows "paired_condition (a @ CHR ''|'' # b)"
proof -
  have bar: "str_in ''|'' (a @ CHR ''|'' # b)" by (simp add: str_in_char)
  have sp: "str_in ''open.spotify.com'' (a @ CHR ''|'' # b)"
    using sb str_in_append [of "''open.spotify.com''" a "CHR ''|'' # b"] by simp
  have tr: "str_in ''track'' (a @ CHR ''|'' # b)"
    using tb str_in_append [of "''track''" a "CHR ''|'' # b"] by simp
  from ya show ?thesis
  proof
    assume "str_in ''youtube.com/watch?v='' a"
    then have "str_in ''youtube.com/watch?v='' (a @ CHR ''|'' # b)"
      using str_in_append by blast
    then show ?thesis by (simp add: paired_condition_def)
  next
    assume "str_in ''youtu.be/'' a"
    then have "str_in ''youtu.be/'' (a @ CHR ''|'' # b)"
      using str_in_append by blast
    then show ?thesis using bar sp tr by (simp add: paired_condition_def)
  qed
qed

lemma valid_pair_split:
  assumes "CHR ''|'' \<notin> set a" and "CHR ''|'' \<notin> set b"
  shows "split_on CHR ''|'' (a @ CHR ''|'' # b) = [a, b]"
  using assms by (simp add: split_on_append split_on_no_sep)

lemma valid_pair_format:
  assumes ya: "str_in ''youtube.com/watch?v='' a \<or> str_in ''youtu.be/'' a"
    and sb: "str_in ''open.spotify.com'' b"
  shows "\<not> bad_format [a, b]"
proof -
  have y1: "str_in ''youtube'' ''youtube.com/watch?v=''" by simp
  have y2: "str_in ''youtu.be'' ''youtu.be/''" by simp
  have s1: "str_in ''spotify'' ''open.spotify.com''" by simp
  have "str_in ''youtube'' a \<or> str_in ''youtu.be'' a"
    using ya str_in_trans [OF y1] str_in_trans [OF y2] by blast
  moreover have "str_in ''spotify'' b" using sb str_in_trans [OF s1] by blast
  ultimately show ?thesis by (auto simp add: bad_format_def)
qed

subsection \<open>The fixed collaborators on some tokens\<close>

lemma stub_track: "parse_request stub_env ''https://open.spotify.com/track/a'' (us, ss)
   = Inr (us @ [''https://open.spotify.com/track/a''], ss)"
  by (simp add: parse_request_def paired_condition_def)

lemma stub_track_b: "parse_request stub_env ''https://open.spotify.com/track/b'' (us, ss)
   = Inr (us @ [''https://open.spotify.com/track/b''], ss)"
  by (simp add: parse_request_def paired_condition_def)

lemma stub_track_missing: "parse_request stub_env ''https://open.spotify.com/track/missing'' (us, ss)
   = Inr (us @ [''https://open.spotify.com/track/missing''], ss)"
  by (simp add: parse_request_def paired_condition_def)

lemma stub_term: "parse_request stub_env ''some song'' (us, ss) = Inr (us, ss @ [stub_song ''some song''])"
  by (simp add: parse_request_def paired_condition_def endswith_def stub_env_def)

lemma stub_fetch_a: "from_url stub_env ''https://open.spotify.com/track/a''
   = Inr (stub_song ''https://open.spotify.com/track/a'')"
  by (simp add: stub_env_def stub_from_url_def)

lemma stub_fetch_b: "from_url stub_env ''https://open.spotify.com/track/b''
   = Inr (stub_song ''https://open.spotify.com/track/b'')"
  by (simp add: stub_env_def stub_from_url_def)

lemma stub_fetch_missing: "from_url stub_env ''https://open.spotify.com/track/missing''
   = Inl (External ''track not found'')"
  by (simp add: stub_env_def stub_from_url_def)

section \<open>The claims about the dispatcher\<close>

text \<open>
  C1. The claim: a token is classified as a paired reference exactly when it contains a
  YouTube-style URL substring, the Spotify track substrings and the separator \<open>|\<close>; a token
  with only \<open>youtube.com/watch?v=\<close>, no \<open>|\<close> and no Spotify substring is not handled by
  rule 1. The code does otherwise: the condition is \<open>A or (B and C and D and E)\<close>, so the
  token \<open>https://www.youtube.com/watch?v=abc\<close> enters the first branch, and both entry
  points raise \<open>QueryError\<close> on it. The sibling marker \<open>youtu.be/\<close> alone does not enter
  the branch.
\<close>

theorem youtube_only_token_enters_rule_1:
  "paired_condition ''https://www.youtube.com/watch?v=abc''
   \<and> \<not> str_in ''|'' ''https://www.youtube.com/watch?v=abc''
   \<and> \<not> str_in ''open.spotify.com'' ''https://www.youtube.com/watch?v=abc''
   \<and> parse_query env [''https://www.youtube.com/watch?v=abc''] threads = Inl (QueryError format_message)
   \<and> get_simple_songs env [''https://www.youtube.com/watch?v=abc''] = Inl (QueryError format_message)
   \<and> \<not> paired_condition ''https://youtu.be/abc''"
proof -
  let ?t = "''https://www.youtube.com/watch?v=abc''"
  have p: "paired_condition ?t" by (simp add: paired_condition_def)
  have b: "bad_format (split_on CHR ''|'' ?t)" by (simp add: bad_format_def)
  have 1: "parse_query env [?t] threads = Inl (QueryError format_message)"
    using parse_request_paired_bad [OF p b] by (simp add: parse_query_def)
  have 2: "get_simple_songs env [?t] = Inl (QueryError format_message)"
    using simple_request_paired_bad [OF p b] by (simp add: get_simple_songs_def)
  have 3: "\<not> str_in ''|'' ?t" by simp
  have 4: "\<not> str_in ''open.spotify.com'' ?t" by simp
  have 5: "\<not> paired_condition ''https://youtu.be/abc''" by (simp add: paired_condition_def)
  show ?thesis using p 1 2 3 4 5 by blast
qed

text \<open>
  C5. A token that enters the first branch and is malformed (the split on \<open>|\<close> has fewer
  than two parts, or part 0 has no YouTube host marker, or part 1 has no Spotify marker)
  makes \<^verbatim>\<open>parse_query\<close> raise \<open>QueryError\<close>, whatever follows it in the query, once the
  tokens before it have been processed; the swapped token
  \<open>https://open.spotify.com/track/abc|https://youtube.com/watch?v=xyz\<close> is one of them.
\<close>

theorem malformed_paired_token_raises:
  assumes enters: "paired_condition request"
    and malformed:
      "length (split_on CHR ''|'' request) < 2
       \<or> (\<not> str_in ''youtube'' (split_on CHR ''|'' request ! 0)
           \<and> \<not> str_in ''youtu.be'' (split_on CHR ''|'' request ! 0))
       \<or> \<not> str_in ''spotify'' (split_on CHR ''|'' request ! 1)"
    and before: "parse_loop env ([], []) pre = Inr st"
  shows "parse_query env (pre @ request # post) threads = Inl (QueryError format_message)
         \<and> parse_query env
              [''https://open.spotify.com/track/abc|https://youtube.com/watch?v=xyz''] threads
            = Inl (QueryError format_message)"
proof -
  have "bad_format (split_on CHR ''|'' request)"
    using malformed unfolding bad_format_def by auto
  then have "parse_request env request st = Inl (QueryError format_message)"
    using enters by (rule parse_request_paired_bad [rotated])
  then have "parse_loop env ([], []) (pre @ request # post) = Inl (QueryError format_message)"
    using before by (simp add: parse_loop_append)
  then have general: "parse_query env (pre @ request # post) threads = Inl (QueryError format_message)"
    by (simp add: parse_query_def)
  let ?t = "''https://open.spotify.com/track/abc|https://youtube.com/watch?v=xyz''"
  have p: "paired_condition ?t" by (simp add: paired_condition_def)
  have b: "bad_format (split_on CHR ''|'' ?t)" by (simp add: bad_format_def)
  have "parse_query env [?t] threads = Inl (QueryError format_message)"
    using parse_request_paired_bad [OF p b] by (simp add: parse_query_def)
  with general show ?thesis by simp
qed

theorem malformed_paired_token_raises_witness:
  "parse_query stub_env
     ([''some song''] @ ''https://youtube.com/watch?v=xyz|https://example.com/track/abc'' # [''saved'']) 4
   = Inl (QueryError format_message)
   \<and> parse_query stub_env
        [''https://open.spotify.com/track/abc|https://youtube.com/watch?v=xyz''] 4
      = Inl (QueryError format_message)"
proof -
  let ?t = "''https://youtube.com/watch?v=xyz|https://example.com/track/abc''"
  have p: "paired_condition ?t" by (simp add: paired_condition_def)
  have m: "length (split_on CHR ''|'' ?t) < 2
       \<or> (\<not> str_in ''youtube'' (split_on CHR ''|'' ?t ! 0)
           \<and> \<not> str_in ''youtu.be'' (split_on CHR ''|'' ?t ! 0))
       \<or> \<not> str_in ''spotify'' (split_on CHR ''|'' ?t ! 1)" by simp
  have b: "parse_loop stub_env ([], []) [''some song''] = Inr ([], [stub_song ''some song''])"
    by (simp add: parse_request_def paired_condition_def endswith_def stub_env_def)
  show ?thesis by (rule malformed_paired_token_raises [OF p m b])
qed

text \<open>
  C4. For a token \<open>a|b\<close> where \<open>a\<close> is YouTube-shaped, \<open>b\<close> is Spotify-track-shaped and
  neither contains \<open>|\<close>, the token adds exactly one Song and no URL to the state of the
  loop, and \<^verbatim>\<open>parse_query\<close> on it returns exactly one Song: the one built by
  \<^verbatim>\<open>Song.from_dict\<close> from the dictionary of the Song fetched for \<open>b\<close> in which
  \<open>download_url\<close> is set to \<open>a\<close> and every other key is as fetched. No URL is put into
  the batch, and no search provider is a parameter of the dispatcher, so nothing is scored.
  \<^verbatim>\<open>get_simple_songs\<close> builds the Song from \<open>url = b\<close> and \<open>download_url = a\<close> alone.
\<close>

theorem valid_paired_token_gives_one_song:
  assumes ya: "str_in ''youtube.com/watch?v='' a \<or> str_in ''youtu.be/'' a"
    and na: "CHR ''|'' \<notin> set a"
    and sb: "str_in ''open.spotify.com'' b" and tb: "str_in ''track'' b"
    and nb: "CHR ''|'' \<notin> set b"
    and fetch: "from_url env b = Inr s"
    and build: "from_dict env ((json env s)(''download_url'' \<mapsto> PStr a)) = Inr s'"
    and pool: "0 < threads"
  shows "parse_request env (a @ ''|'' @ b) (us, ss) = Inr (us, ss @ [s'])
         \<and> parse_query env [a @ ''|'' @ b] threads = Inr [s']
         \<and> get_simple_songs env [a @ ''|'' @ b] =
             (case from_dict env [''url'' \<mapsto> PStr b, ''download_url'' \<mapsto> PStr a] of
                Inl e \<Rightarrow> Inl e
              | Inr s2 \<Rightarrow> Inr [s2])"
proof -
  let ?r = "a @ CHR ''|'' # b"
  have c: "paired_condition ?r" using ya sb tb by (rule valid_pair_condition)
  have sp: "split_on CHR ''|'' ?r = [a, b]" using na nb by (rule valid_pair_split)
  have f: "\<not> bad_format [a, b]" using ya sb by (rule valid_pair_format)
  have step: "parse_request env ?r st = Inr (fst st, snd st @ [s'])" for st
    using c sp f fetch build by (cases st) (simp add: parse_request_def)
  have 0: "parse_request env ?r (us, ss) = Inr (us, ss @ [s'])"
    using step [of "(us, ss)"] by simp
  have 1: "parse_query env [?r] threads = Inr [s']"
    using step [of "([], [])"] pool by (simp add: parse_query_def)
  have "simple_request env ?r ([], []) =
          (case from_dict env [''url'' \<mapsto> PStr b, ''download_url'' \<mapsto> PStr a] of
             Inl e \<Rightarrow> Inl e | Inr s2 \<Rightarrow> Inr ([s2], []))"
    using c sp f by (simp add: simple_request_def split: sum.splits)
  then have 2: "get_simple_songs env [?r] =
          (case from_dict env [''url'' \<mapsto> PStr b, ''download_url'' \<mapsto> PStr a] of
             Inl e \<Rightarrow> Inl e | Inr s2 \<Rightarrow> Inr [s2])"
    by (simp add: get_simple_songs_def split: sum.splits)
  from 0 1 2 show ?thesis by simp
qed

theorem valid_paired_token_gives_one_song_witness:
  "parse_query stub_env [''https://youtube.com/watch?v=xyz'' @ ''|'' @ ''https://open.spotify.com/track/abc''] 4
     = Inr [(stub_song ''https://open.spotify.com/track/abc'')
              \<lparr>download_url := Some ''https://youtube.com/watch?v=xyz''\<rparr>]
   \<and> get_simple_songs stub_env
        [''https://youtube.com/watch?v=xyz'' @ ''|'' @ ''https://open.spotify.com/track/abc'']
     = Inr [(stub_song ''https://open.spotify.com/track/abc'')
              \<lparr>download_url := Some ''https://youtube.com/watch?v=xyz''\<rparr>]"
proof -
  let ?a = "''https://youtube.com/watch?v=xyz''" and ?b = "''https://open.spotify.com/track/abc''"
  have ya: "str_in ''youtube.com/watch?v='' ?a \<or> str_in ''youtu.be/'' ?a" by simp
  have na: "CHR ''|'' \<notin> set ?a" by simp
  have sb: "str_in ''open.spotify.com'' ?b" by simp
  have tb: "str_in ''track'' ?b" by simp
  have nb: "CHR ''|'' \<notin> set ?b" by simp
  have fetch: "from_url stub_env ?b = Inr (stub_song ?b)"
    by (simp add: stub_env_def stub_from_url_def)
  have build: "from_dict stub_env ((json stub_env (stub_song ?b))(''download_url'' \<mapsto> PStr ?a))
                 = Inr ((stub_song ?b)\<lparr>download_url := Some ?a\<rparr>)"
    by (simp add: stub_env_def stub_from_dict_def stub_json_def stub_song_def)
  have pool: "(0::int) < 4" by simp
  have simple: "from_dict stub_env [''url'' \<mapsto> PStr ?b, ''download_url'' \<mapsto> PStr ?a]
                 = Inr ((stub_song ?b)\<lparr>download_url := Some ?a\<rparr>)"
    by (simp add: stub_env_def stub_from_dict_def stub_song_def)
  show ?thesis
    using valid_paired_token_gives_one_song [OF ya na sb tb nb fetch build pool, of "[]" "[]"] simple
    by simp
qed

text \<open>
  C2. The claim: a Song produced from an earlier token precedes one produced from a later
  token. It fails: the Songs of the track URLs are fetched after the loop and appended
  last, so the Song of a search term at position 2 precedes the Song of a track URL at
  position 1.
\<close>

theorem later_token_song_comes_first:
  "parse_query stub_env [''https://open.spotify.com/track/a'', ''some song''] 1
     = Inr [stub_song ''some song'', stub_song ''https://open.spotify.com/track/a'']
   \<and> parse_query stub_env [''https://open.spotify.com/track/a''] 1
     = Inr [stub_song ''https://open.spotify.com/track/a'']
   \<and> parse_query stub_env [''some song''] 1 = Inr [stub_song ''some song'']
   \<and> stub_song ''some song'' \<noteq> stub_song ''https://open.spotify.com/track/a''"
  by (simp add: parse_query_def stub_track stub_term stub_fetch_a stub_song_def)

text \<open>
  C2, as amended: the output is the Songs that the loop builds directly (paired tokens,
  manifest records, search terms), in token order, followed by the Songs of the collected
  URLs, in the order of their collection, which is token order; the batch keeps the
  order of submission. For a query \<open>q1 @ q2\<close> the output is \<open>d1 @ d2 @ r1 @ r2\<close>, where
  \<open>d\<close> are the directly built Songs and \<open>r\<close> the fetched ones of each part.
\<close>

theorem parse_query_output_order:
  assumes "parse_query env (q1 @ q2) threads = Inr out"
  shows "\<exists>u1 d1 u2 d2 r1 r2.
           parse_loop env ([], []) q1 = Inr (u1, d1)
         \<and> parse_loop env ([], []) q2 = Inr (u2, d2)
         \<and> map (from_url env) u1 = map Inr r1
         \<and> map (from_url env) u2 = map Inr r2
         \<and> out = d1 @ d2 @ r1 @ r2"
proof -
  from assms obtain us ss rs where
    loop: "parse_loop env ([], []) (q1 @ q2) = Inr (us, ss)"
    and batch: "executor_map env us = Inr rs"
    and out: "out = ss @ rs"
    by (auto simp add: parse_query_def split: sum.splits prod.splits if_splits)
  from loop obtain u1 d1 where
    l1: "parse_loop env ([], []) q1 = Inr (u1, d1)"
    and l12: "parse_loop env (u1, d1) q2 = Inr (us, ss)"
    by (auto simp add: parse_loop_append split: sum.splits)
  from l12 obtain u2 d2 where
    l2: "parse_loop env ([], []) q2 = Inr (u2, d2)"
    and us: "us = u1 @ u2" and ss: "ss = d1 @ d2"
    using parse_loop_acc [of env u1 d1 q2] by (auto split: sum.splits)
  from batch us obtain r1 r2 where
    b1: "executor_map env u1 = Inr r1" and b2: "executor_map env u2 = Inr r2"
    and rs: "rs = r1 @ r2"
    by (auto simp add: executor_map_append split: sum.splits)
  have "map (from_url env) u1 = map Inr r1" using b1 by (rule executor_map_order)
  moreover have "map (from_url env) u2 = map Inr r2" using b2 by (rule executor_map_order)
  moreover have "out = d1 @ d2 @ r1 @ r2" using out ss rs by simp
  ultimately show ?thesis using l1 l2 by blast
qed

theorem parse_query_output_order_witness:
  "\<exists>u1 d1 u2 d2 r1 r2.
           parse_loop stub_env ([], []) [''https://open.spotify.com/track/a'', ''some song''] = Inr (u1, d1)
         \<and> parse_loop stub_env ([], []) [''https://open.spotify.com/track/b''] = Inr (u2, d2)
         \<and> map (from_url stub_env) u1 = map Inr r1
         \<and> map (from_url stub_env) u2 = map Inr r2
         \<and> [stub_song ''some song'', stub_song ''https://open.spotify.com/track/a'',
             stub_song ''https://open.spotify.com/track/b''] = d1 @ d2 @ r1 @ r2"
proof -
  have "parse_query stub_env
          ([''https://open.spotify.com/track/a'', ''some song''] @ [''https://open.spotify.com/track/b'']) 1
        = Inr [stub_song ''some song'', stub_song ''https://open.spotify.com/track/a'',
               stub_song ''https://open.spotify.com/track/b'']"
    by (simp add: parse_query_def stub_track stub_track_b stub_term stub_fetch_a stub_fetch_b)
  then show ?thesis by (rule parse_query_output_order)
qed

text \<open>
  C3. The claim: a failed fetch for one member URL does not prevent the Songs of the other
  URLs from being returned. It fails: with three track URLs of which the second cannot be
  fetched, the call raises and returns no Song, although the other two can be fetched.
\<close>

theorem one_failed_fetch_aborts_batch:
  "parse_query stub_env
     [''https://open.spotify.com/track/a'', ''https://open.spotify.com/track/missing'',
      ''https://open.spotify.com/track/b''] 4
     = Inl (External ''track not found'')
   \<and> from_url stub_env ''https://open.spotify.com/track/a''
     = Inr (stub_song ''https://open.spotify.com/track/a'')
   \<and> from_url stub_env ''https://open.spotify.com/track/b''
     = Inr (stub_song ''https://open.spotify.com/track/b'')"
  by (simp add: parse_query_def stub_track stub_track_b stub_track_missing
      stub_fetch_a stub_fetch_b stub_fetch_missing)

text \<open>
  C3, as amended: when the loop has collected the URLs and the fetch of one of them fails,
  every URL before it being fetched, \<^verbatim>\<open>parse_query\<close> raises the error of that fetch and
  returns no Song (with a thread count that is not positive, the pool's \<open>ValueError\<close> is
  raised instead).
\<close>

theorem failed_fetch_is_raised:
  assumes "parse_loop env ([], []) query = Inr (pre @ u # post, ss)"
    and "executor_map env pre = Inr rs"
    and "from_url env u = Inl e"
  shows "parse_query env query threads = Inl (if 0 < threads then e else ValueError)"
  using assms by (simp add: parse_query_def executor_map_first_failure)

theorem failed_fetch_is_raised_witness:
  "parse_query stub_env
     [''https://open.spotify.com/track/a'', ''https://open.spotify.com/track/missing'',
      ''https://open.spotify.com/track/b''] 4
   = Inl (if (0::int) < 4 then External ''track not found'' else ValueError)"
proof -
  have loop: "parse_loop stub_env ([], [])
          [''https://open.spotify.com/track/a'', ''https://open.spotify.com/track/missing'',
           ''https://open.spotify.com/track/b'']
        = Inr ([''https://open.spotify.com/track/a''] @ ''https://open.spotify.com/track/missing''
                 # [''https://open.spotify.com/track/b''], [])"
    by (simp add: stub_track stub_track_b stub_track_missing)
  have pre: "executor_map stub_env [''https://open.spotify.com/track/a'']
        = Inr [stub_song ''https://open.spotify.com/track/a'']"
    by (simp add: stub_fetch_a)
  show ?thesis by (rule failed_fetch_is_raised [OF loop pre stub_fetch_missing])
qed

section \<open>Properties of the provider\<close>

lemmas stub_eval = ranked_search_def order_results_def order_step_def stub_provider_def test_song_def
     truthy_def title_query_def stub_title_def candidate_def common_word_def sentence_words_def replace_char_def
     artist_match_def artist_match_number_def name_match_def slug_song_title_def stub_match_def
     average_match_def time_match_def sorted_results_def search_def isrc_match_def

subsection \<open>The search and the scoring loop\<close>

lemma search_cases:
  "search p sg =
     (case isrc_match p sg of
        Some w \<Rightarrow> ([str_of (isrc sg)], Inr (Some w))
      | None \<Rightarrow>
          ranked_search p sg
            (if \<not> truthy (search_query p) \<and> truthy (isrc sg) then [str_of (isrc sg)] else [])
            (search_term p sg))"
  by (simp add: search_def isrc_match_def search_term_def split: option.splits list.splits)

lemma dict_set_entry:
  "e \<in> set (dict_set k v links) \<Longrightarrow> e = (k, v) \<or> e \<in> set links"
  by (induction links) (auto split: if_splits)

lemma map_of_dict_set: "map_of (dict_set k v links) = (map_of links)(k \<mapsto> v)"
  by (induction links) (auto simp add: fun_eq_iff)

lemma order_step_cases:
  assumes "order_step p sg r links = Inr links'"
  shows "(passes_gates p sg r \<and> links' = dict_set (watch_url r) (average_match p sg r) links)
         \<or> (\<not> passes_gates p sg r \<and> links' = links)"
  using assms unfolding order_step_def passes_gates_def
  by (simp split: if_splits)

lemma order_loop_entry:
  assumes "order_loop p sg links results = Inr links'" and "e \<in> set links'"
  shows "e \<in> set links
         \<or> (\<exists>r \<in> set results. passes_gates p sg r \<and> e = (watch_url r, average_match p sg r))"
  using assms
proof (induction results arbitrary: links)
  case Nil
  then show ?case by simp
next
  case (Cons r rest)
  from Cons.prems(1) obtain mid where
    step: "order_step p sg r links = Inr mid" and loop: "order_loop p sg mid rest = Inr links'"
    by (auto split: sum.splits)
  from Cons.IH [OF loop Cons.prems(2)] consider
    (old) "e \<in> set mid"
    | (new) "\<exists>r' \<in> set rest. passes_gates p sg r' \<and> e = (watch_url r', average_match p sg r')"
    by blast
  then show ?case
  proof cases
    case old
    from order_step_cases [OF step] show ?thesis
    proof
      assume a: "passes_gates p sg r \<and> mid = dict_set (watch_url r) (average_match p sg r) links"
      with old have "e = (watch_url r, average_match p sg r) \<or> e \<in> set links"
        using dict_set_entry by metis
      with a show ?thesis by auto
    next
      assume "\<not> passes_gates p sg r \<and> mid = links"
      with old show ?thesis by simp
    qed
  next
    case new
    then show ?thesis by auto
  qed
qed

lemma order_loop_lookup:
  assumes "order_loop p sg links results = Inr links'"
    and "\<forall>r \<in> set results. passes_gates p sg r \<and> watch_url r = k \<longrightarrow> average_match p sg r = v"
    and "map_of links k = Some v \<or> (\<exists>r \<in> set results. passes_gates p sg r \<and> watch_url r = k)"
  shows "map_of links' k = Some v"
  using assms
proof (induction results arbitrary: links)
  case Nil
  then show ?case by simp
next
  case (Cons r rest)
  from Cons.prems(1) obtain mid where
    step: "order_step p sg r links = Inr mid" and loop: "order_loop p sg mid rest = Inr links'"
    by (auto split: sum.splits)
  have same: "\<forall>r' \<in> set rest. passes_gates p sg r' \<and> watch_url r' = k \<longrightarrow> average_match p sg r' = v"
    using Cons.prems(2) by simp
  have "map_of mid k = Some v \<or> (\<exists>r' \<in> set rest. passes_gates p sg r' \<and> watch_url r' = k)"
  proof (cases "passes_gates p sg r")
    case True
    then have mid: "mid = dict_set (watch_url r) (average_match p sg r) links"
      using order_step_cases [OF step] by blast
    show ?thesis
    proof (cases "watch_url r = k")
      case True
      then have "average_match p sg r = v" using \<open>passes_gates p sg r\<close> Cons.prems(2) by simp
      then show ?thesis using mid True by (simp add: map_of_dict_set)
    next
      case False
      then have "map_of mid k = map_of links k" using mid by (simp add: map_of_dict_set)
      then show ?thesis using Cons.prems(3) False by auto
    qed
  next
    case False
    then have "mid = links" using order_step_cases [OF step] by blast
    then show ?thesis using Cons.prems(3) False by auto
  qed
  with Cons.IH [OF loop same] show ?case by blast
qed

lemma sorted_results_head:
  "sorted_results items = best # others \<Longrightarrow> best \<in> set items"
proof -
  assume "sorted_results items = best # others"
  then have "best \<in> set (sort_key (\<lambda>x. - snd x) items)" by (simp add: sorted_results_def)
  then show ?thesis by simp
qed

lemma ranked_search_scored:
  assumes "\<not> filter_results p" and "snd (ranked_search p sg calls q) = Inr (Some w)"
  shows "\<exists>results r. get_results p q = Some results \<and> r \<in> set results
           \<and> passes_gates p sg r \<and> watch_url r = Some w"
proof (cases "get_results p q")
  case None
  with assms show ?thesis by (simp add: ranked_search_def)
next
  case (Some results)
  show ?thesis
  proof (cases "order_results p results sg")
    case (Inl e)
    with assms Some show ?thesis by (simp add: ranked_search_def)
  next
    case (Inr links)
    show ?thesis
    proof (cases "sorted_results links")
      case Nil
      with assms Some Inr show ?thesis by (simp add: ranked_search_def split: if_splits)
    next
      case (Cons best others)
      with assms Some Inr have w: "fst best = Some w"
        by (simp add: ranked_search_def split: if_splits)
      have "best \<in> set links" using Cons by (rule sorted_results_head)
      then have "\<exists>r \<in> set results. passes_gates p sg r \<and> best = (watch_url r, average_match p sg r)"
        using order_loop_entry [of p sg "[]" results links best] Inr
        by (simp add: order_results_def)
      then obtain r where "r \<in> set results" "passes_gates p sg r" "fst best = watch_url r"
        by auto
      with w Some show ?thesis by auto
    qed
  qed
qed

lemma search_scored:
  assumes "\<not> filter_results p" and "isrc_match p sg = None"
    and "snd (search p sg) = Inr (Some w)"
  shows "\<exists>results r. get_results p (search_term p sg) = Some results \<and> r \<in> set results
           \<and> passes_gates p sg r \<and> watch_url r = Some w"
  using assms ranked_search_scored [of p sg _ "search_term p sg" w]
  by (simp add: search_cases)

lemma average_match_cong:
  "title r' = title r \<Longrightarrow> length_s r' = length_s r \<Longrightarrow> average_match p sg r' = average_match p sg r"
  by (simp add: average_match_def artist_match_def artist_match_number_def name_match_def time_match_def)

lemma ranked_search_filter_empty:
  "filter_results p \<Longrightarrow> get_results p q = Some [] \<Longrightarrow> ranked_search p sg calls q = (calls @ [q], Inl IndexError)"
  by (simp add: ranked_search_def)

lemma ranked_search_none:
  "get_results p q = None \<Longrightarrow> ranked_search p sg calls q = (calls @ [q], Inr None)"
  by (simp add: ranked_search_def)

lemma ranked_search_default_empty:
  "\<not> filter_results p \<Longrightarrow> get_results p q = Some [] \<Longrightarrow> ranked_search p sg calls q = (calls @ [q], Inr None)"
  by (simp add: ranked_search_def order_results_def)

section \<open>The claims about the provider\<close>

text \<open>
  C6. With no template set and a song that carries an ISRC: when the ISRC lookup gives
  exactly one result and its watch reference is not \<open>None\<close>, \<^verbatim>\<open>search\<close> returns that
  reference, and the only term handed to the search service is the ISRC, so neither the
  text search nor a gate has run; when the lookup gives \<open>None\<close>, no result, or more than one
  result, \<^verbatim>\<open>search\<close> goes on with the text search for the lowercased title.
\<close>

theorem isrc_single_result_short_circuits:
  assumes "\<not> truthy (search_query p)" and "isrc sg = Some code" and "code \<noteq> []"
  shows "(get_results p code = Some [r] \<and> watch_url r = Some w
            \<longrightarrow> search p sg = ([code], Inr (Some w)))
         \<and> ((get_results p code = None \<or> get_results p code = Some []
              \<or> (\<exists>r1 r2 rs. get_results p code = Some (r1 # r2 # rs)))
            \<longrightarrow> search p sg = ranked_search p sg [code] (title_query p sg))"
  using assms by (auto simp add: search_def truthy_def str_of_def)

theorem isrc_single_result_short_circuits_witness:
  "search (stub_provider (\<lambda>q. if q = ''ISRC1'' then Some [candidate ''v9'' ''unrelated'' 5]
                                else Some [candidate ''v1'' ''a - test'' 200]))
          (test_song\<lparr>isrc := Some ''ISRC1''\<rparr>)
     = ([''ISRC1''], Inr (Some ''https://youtube.com/watch?v=v9''))
   \<and> search (stub_provider (\<lambda>q. if q = ''ISRC1'' then Some [] else Some [candidate ''v1'' ''a - test'' 200]))
          (test_song\<lparr>isrc := Some ''ISRC1''\<rparr>)
     = ([''ISRC1'', ''a - test''], Inr (Some ''https://youtube.com/watch?v=v1''))"
proof -
  let ?g1 = "\<lambda>q. if q = ''ISRC1'' then Some [candidate ''v9'' ''unrelated'' 5]
                  else Some [candidate ''v1'' ''a - test'' 200]"
  let ?g2 = "\<lambda>q. if q = ''ISRC1'' then Some [] else Some [candidate ''v1'' ''a - test'' 200]"
  let ?sg = "test_song\<lparr>isrc := Some ''ISRC1''\<rparr>"
  have t1: "\<not> truthy (search_query (stub_provider ?g1))" by (simp add: stub_provider_def truthy_def)
  have t2: "\<not> truthy (search_query (stub_provider ?g2))" by (simp add: stub_provider_def truthy_def)
  have i: "isrc ?sg = Some ''ISRC1''" by simp
  have n: "''ISRC1'' \<noteq> []" by simp
  have h1: "get_results (stub_provider ?g1) ''ISRC1'' = Some [candidate ''v9'' ''unrelated'' 5]
            \<and> watch_url (candidate ''v9'' ''unrelated'' 5) = Some ''https://youtube.com/watch?v=v9''"
    by (simp add: stub_provider_def candidate_def)
  have h2: "get_results (stub_provider ?g2) ''ISRC1'' = Some []" by (simp add: stub_provider_def)
  have a: "search (stub_provider ?g1) ?sg = ([''ISRC1''], Inr (Some ''https://youtube.com/watch?v=v9''))"
    using isrc_single_result_short_circuits [OF t1 i n, of "candidate ''v9'' ''unrelated'' 5"
        "''https://youtube.com/watch?v=v9''"] h1 by blast
  have b: "search (stub_provider ?g2) ?sg
             = ranked_search (stub_provider ?g2) ?sg [''ISRC1''] (title_query (stub_provider ?g2) ?sg)"
    using isrc_single_result_short_circuits [OF t2 i n] h2 by blast
  have c: "ranked_search (stub_provider ?g2) ?sg [''ISRC1''] (title_query (stub_provider ?g2) ?sg)
             = ([''ISRC1'', ''a - test''], Inr (Some ''https://youtube.com/watch?v=v1''))"
    by (simp add: ranked_search_def order_results_def order_step_def stub_provider_def test_song_def
     truthy_def title_query_def stub_title_def candidate_def common_word_def sentence_words_def replace_char_def
     artist_match_def artist_match_number_def name_match_def slug_song_title_def stub_match_def
     average_match_def time_match_def sorted_results_def)
  from a b c show ?thesis by simp
qed

text \<open>
  C7. In default mode (no filter), when the search is decided by the scoring, that is,
  when the ISRC lookup has not ended it, a watch reference that \<^verbatim>\<open>search\<close> returns is the
  watch reference of a result of the text search whose slugified title contains a
  non-empty word of the song's slugified name (hyphens read as blanks, split at blanks).
  A candidate with no such word is therefore never the one returned, whatever its scores.
\<close>

theorem candidate_without_common_word_never_returned:
  assumes "\<not> filter_results p" and "isrc_match p sg = None"
    and "snd (search p sg) = Inr (Some w)"
  shows "\<exists>results r. get_results p (search_term p sg) = Some results \<and> r \<in> set results
           \<and> watch_url r = Some w
           \<and> (\<exists>word \<in> set (split_on CHR '' '' (replace_char CHR ''-'' CHR '' '' (slugify p (name sg)))).
                 word \<noteq> [] \<and> str_in word (slugify p (title r)))"
proof -
  from search_scored [OF assms] obtain results r where
    "get_results p (search_term p sg) = Some results" "r \<in> set results"
    "passes_gates p sg r" "watch_url r = Some w"
    by blast
  moreover from \<open>passes_gates p sg r\<close> have
    "\<exists>word \<in> set (split_on CHR '' '' (replace_char CHR ''-'' CHR '' '' (slugify p (name sg)))).
        word \<noteq> [] \<and> str_in word (slugify p (title r))"
    by (simp add: passes_gates_def common_word_def sentence_words_def list_ex_iff)
  ultimately show ?thesis by blast
qed

theorem candidate_without_common_word_never_returned_witness:
  "\<exists>results r. get_results (stub_provider two_results) (search_term (stub_provider two_results) test_song)
                  = Some results
           \<and> r \<in> set results
           \<and> watch_url r = Some ''https://youtube.com/watch?v=v1''
           \<and> (\<exists>word \<in> set (split_on CHR '' '' (replace_char CHR ''-'' CHR '' ''
                                 (slugify (stub_provider two_results) (name test_song)))).
                 word \<noteq> [] \<and> str_in word (slugify (stub_provider two_results) (title r)))"
proof -
  have 1: "\<not> filter_results (stub_provider two_results)" by (simp add: stub_provider_def)
  have 2: "isrc_match (stub_provider two_results) test_song = None"
    by (simp add: isrc_match_def test_song_def truthy_def)
  have 3: "snd (search (stub_provider two_results) test_song)
             = Inr (Some ''https://youtube.com/watch?v=v1'')"
    by (simp add: stub_eval two_results_def)
  show ?thesis by (rule candidate_without_common_word_never_returned [OF 1 2 3])
qed

text \<open>
  C8. For a candidate that passes the gates, the score recorded under its watch reference
  is the mean of the artist score, the name score and the duration score
  \<open>100 - (length - duration\<^sup>2) / duration * 100\<close>, with no clamping: the witness has a
  recorded score above 100 and a negative one. The dictionary has one entry per watch
  reference, so the candidates that share a watch reference are taken to be the same video
  (same title and length). Numbers are real numbers here; Python rounds them to floats.
\<close>

theorem recorded_score_is_mean:
  assumes "order_results p results sg = Inr links" and "r \<in> set results"
    and "passes_gates p sg r"
    and "\<forall>r' \<in> set results. watch_url r' = watch_url r
           \<longrightarrow> title r' = title r \<and> length_s r' = length_s r"
  shows "map_of links (watch_url r) =
           Some ((artist_match p sg r + name_match p sg r
                  + (100 - (real_of_int (length_s r) - (duration sg)\<^sup>2) / duration sg * 100)) / 3)"
proof -
  have loop: "order_loop p sg [] results = Inr links" using assms(1) by (simp add: order_results_def)
  have same: "\<forall>r' \<in> set results. passes_gates p sg r' \<and> watch_url r' = watch_url r
                \<longrightarrow> average_match p sg r' = average_match p sg r"
    using assms(4) average_match_cong by blast
  have some: "map_of [] (watch_url r) = Some (average_match p sg r)
              \<or> (\<exists>r' \<in> set results. passes_gates p sg r' \<and> watch_url r' = watch_url r)"
    using assms(2,3) by blast
  have "map_of links (watch_url r) = Some (average_match p sg r)"
    using loop same some by (rule order_loop_lookup)
  then show ?thesis by (simp add: average_match_def time_match_def)
qed

theorem recorded_score_is_mean_witness:
  "map_of [(Some ''https://youtube.com/watch?v=v1'', 20200 / 3),
           (Some ''https://youtube.com/watch?v=v3'', - (4700 / 3))]
          (Some ''https://youtube.com/watch?v=v1'') = Some ((100 + 100 + (100 - (200 - 200\<^sup>2) / 200 * 100)) / (3::real))
   \<and> map_of [(Some ''https://youtube.com/watch?v=v1'', 20200 / 3),
           (Some ''https://youtube.com/watch?v=v3'', - (4700 / 3))]
          (Some ''https://youtube.com/watch?v=v3'') = Some ((100 + 100 + (100 - (50000 - 200\<^sup>2) / 200 * 100)) / (3::real))
   \<and> (100::real) < 20200 / 3 \<and> - (4700 / 3) < (0::real)"
proof -
  let ?p = "stub_provider none_results"
  let ?c1 = "candidate ''v1'' ''a - test'' 200" and ?c3 = "candidate ''v3'' ''a - test'' 50000"
  let ?links = "[(Some ''https://youtube.com/watch?v=v1'', 20200 / 3),
                 (Some ''https://youtube.com/watch?v=v3'', - (4700 / 3))]"
  have run: "order_results ?p [?c1, ?c3] test_song = Inr ?links"
    by (simp add: stub_eval)
  have m1: "?c1 \<in> set [?c1, ?c3]" and m3: "?c3 \<in> set [?c1, ?c3]" by simp_all
  have g1: "passes_gates ?p test_song ?c1" by (simp add: passes_gates_def stub_eval)
  have g3: "passes_gates ?p test_song ?c3" by (simp add: passes_gates_def stub_eval)
  have u1: "\<forall>r' \<in> set [?c1, ?c3]. watch_url r' = watch_url ?c1
              \<longrightarrow> title r' = title ?c1 \<and> length_s r' = length_s ?c1"
    by (simp add: candidate_def)
  have u3: "\<forall>r' \<in> set [?c1, ?c3]. watch_url r' = watch_url ?c3
              \<longrightarrow> title r' = title ?c3 \<and> length_s r' = length_s ?c3"
    by (simp add: candidate_def)
  have a1: "artist_match ?p test_song ?c1 = 100" "name_match ?p test_song ?c1 = 100"
    "artist_match ?p test_song ?c3 = 100" "name_match ?p test_song ?c3 = 100"
    by (simp_all add: stub_eval)
  have d: "duration test_song = 200" "length_s ?c1 = 200" "length_s ?c3 = 50000"
     "watch_url ?c1 = Some ''https://youtube.com/watch?v=v1''"
     "watch_url ?c3 = Some ''https://youtube.com/watch?v=v3''"
    by (simp_all add: test_song_def candidate_def)
  note r1 = recorded_score_is_mean [OF run m1 g1 u1]
  note r3 = recorded_score_is_mean [OF run m3 g3 u3]
  have e1: "map_of ?links (Some ''https://youtube.com/watch?v=v1'')
              = Some ((100 + 100 + (100 - (200 - 200\<^sup>2) / 200 * 100)) / (3::real))"
    using r1 unfolding a1 d by simp
  have e3: "map_of ?links (Some ''https://youtube.com/watch?v=v3'')
              = Some ((100 + 100 + (100 - (50000 - 200\<^sup>2) / 200 * 100)) / (3::real))"
    using r3 unfolding a1 d by simp
  from e1 e3 show ?thesis by simp
qed

text \<open>
  C9. The claim: when the search call yields no results, \<^verbatim>\<open>search\<close> returns \<open>None\<close> in both
  modes and raises nothing. In filter mode the code reads \<^verbatim>\<open>results[0]\<close> after testing
  \<^verbatim>\<open>results is None\<close> only, so an empty result list raises \<open>IndexError\<close>; in default mode
  the empty list gives \<open>None\<close>, and so does \<open>None\<close> in filter mode.
\<close>

theorem filter_mode_empty_results_raises:
  "search ((stub_provider empty_results)\<lparr>filter_results := True\<rparr>) test_song
     = ([''a - test''], Inl IndexError)
   \<and> search (stub_provider empty_results) test_song = ([''a - test''], Inr None)
   \<and> search ((stub_provider none_results)\<lparr>filter_results := True\<rparr>) test_song
     = ([''a - test''], Inr None)"
  by (simp add: stub_eval empty_results_def none_results_def)

text \<open>
  C10. In default mode, when the search is decided by the scoring, a watch reference that
  \<^verbatim>\<open>search\<close> returns is the watch reference of a result of the text search that has a video
  identifier; a result without one leaves the dictionary as it is before any gate or
  score is evaluated, so it raises no division error either.
\<close>

theorem returned_reference_has_video_id:
  assumes "\<not> filter_results p" and "isrc_match p sg = None"
    and "snd (search p sg) = Inr (Some w)"
  shows "(\<exists>results r. get_results p (search_term p sg) = Some results \<and> r \<in> set results
            \<and> watch_url r = Some w \<and> video_id r \<noteq> None)
         \<and> (video_id r0 = None \<longrightarrow> order_step p sg r0 links0 = Inr links0)"
proof -
  from search_scored [OF assms] obtain results r where
    "get_results p (search_term p sg) = Some results" "r \<in> set results"
    "passes_gates p sg r" "watch_url r = Some w"
    by blast
  then have "\<exists>results r. get_results p (search_term p sg) = Some results \<and> r \<in> set results
            \<and> watch_url r = Some w \<and> video_id r \<noteq> None"
    unfolding passes_gates_def by blast
  then show ?thesis by (simp add: order_step_def)
qed

theorem returned_reference_has_video_id_witness:
  "(\<exists>results r. get_results (stub_provider no_id_results) (search_term (stub_provider no_id_results) test_song)
                  = Some results
            \<and> r \<in> set results
            \<and> watch_url r = Some ''https://youtube.com/watch?v=v1'' \<and> video_id r \<noteq> None)
   \<and> order_step (stub_provider no_id_results) (test_song\<lparr>duration := 0\<rparr>)
        \<lparr>video_id = None, title = ''a - test'', length_s = 200,
         watch_url = Some ''https://youtube.com/watch?v=v0''\<rparr> [] = Inr []"
proof -
  have 1: "\<not> filter_results (stub_provider no_id_results)" by (simp add: stub_provider_def)
  have 2: "isrc_match (stub_provider no_id_results) test_song = None"
    by (simp add: isrc_match_def test_song_def truthy_def)
  have 3: "snd (search (stub_provider no_id_results) test_song)
             = Inr (Some ''https://youtube.com/watch?v=v1'')"
    by (simp add: stub_eval no_id_results_def)
  have 4: "order_step (stub_provider no_id_results) (test_song\<lparr>duration := 0\<rparr>)
        \<lparr>video_id = None, title = ''a - test'', length_s = 200,
         watch_url = Some ''https://youtube.com/watch?v=v0''\<rparr> [] = Inr []"
    by (simp add: order_step_def)
  from returned_reference_has_video_id [OF 1 2 3] 4 show ?thesis by blast
qed

end
